theory Spec2Isabelle
  imports Main "HOL-Library.Word" "HOL-Library.Multiset"
begin

section \<open>Traversal utilities (comms/util/Tuple.h)\<close>

text \<open>
  A \<^verbatim>\<open>std::tuple\<close> of K heterogeneous elements is a list of K values of one type
  \<open>'a\<close>, which the caller instantiates with a sum of the element types. The callback
  receives its element by reference and may carry state of its own, so it is a function
  from the element and the functor's state to the updated element and state.

  \<^verbatim>\<open>TupleForEachHelper<TRem>::exec\<close> calls \<^verbatim>\<open>func(std::get<Idx>(tuple))\<close> with
  \<^verbatim>\<open>Idx = TupleSize - TRem\<close> and continues with \<^verbatim>\<open>TRem - 1\<close>;
  \<^verbatim>\<open>TupleForEachHelper<0>::exec\<close> does nothing. The static assertion
  \<^verbatim>\<open>TRem <= TupleSize\<close> holds at every instantiation that \<^verbatim>\<open>tupleForEach\<close> makes.
\<close>

fun TupleForEachHelper_exec ::
  "nat \<Rightarrow> 'a list \<Rightarrow> ('a \<Rightarrow> 's \<Rightarrow> 'a \<times> 's) \<Rightarrow> 's \<Rightarrow> 'a list \<times> 's" where
  "TupleForEachHelper_exec 0 tuple func s = (tuple, s)"
| "TupleForEachHelper_exec (Suc rem) tuple func s =
     (let TupleSize = length tuple;
          Idx = TupleSize - Suc rem;
          (e, s') = func (tuple ! Idx) s
      in TupleForEachHelper_exec rem (tuple[Idx := e]) func s')"

definition tupleForEach ::
  "'a list \<Rightarrow> ('a \<Rightarrow> 's \<Rightarrow> 'a \<times> 's) \<Rightarrow> 's \<Rightarrow> 'a list \<times> 's" where
  "tupleForEach tuple func s = TupleForEachHelper_exec (length tuple) tuple func s"

text \<open>
  Instrumentation used to state how often and in which order a callback runs: the
  callback is wrapped so that every invocation appends the element it received to a
  log kept beside the callback's own state.
\<close>

definition recording ::
  "('a \<Rightarrow> 's \<Rightarrow> 'a \<times> 's) \<Rightarrow> 'a \<Rightarrow> 'a list \<times> 's \<Rightarrow> 'a \<times> 'a list \<times> 's" where
  "recording func x ls =
     (case func x (snd ls) of (e, s') \<Rightarrow> (e, fst ls @ [x], s'))"

text \<open>The in-order traversal the specification describes: one call per element, first to last.\<close>

fun in_order :: "('a \<Rightarrow> 's \<Rightarrow> 'a \<times> 's) \<Rightarrow> 'a list \<Rightarrow> 's \<Rightarrow> 'a list \<times> 's" where
  "in_order func [] s = ([], s)"
| "in_order func (x # xs) s =
     (case func x s of (e, s') \<Rightarrow>
        (case in_order func xs s' of (es, s'') \<Rightarrow> (e # es, s'')))"

section \<open>Bitmask option chain (comms/field/details/BitmaskValueBase.h)\<close>

text \<open>
  \<^verbatim>\<open>BitmaskValueBase<TField, TOptions...>\<close> is resolved at compile time: the partial
  specialisation selected by the first option derives from the class for the remaining
  options and redeclares some static members, which hide the inherited ones. The
  resolution is a function from the option list to the members visible in the most
  derived class.

  Types are data here. \<^verbatim>\<open>comms::util::SizeToType<N, false>::Type\<close> is kept symbolic
  (comms/util/SizeToType.h is not among the sources), and the functor types carried by
  \<^verbatim>\<open>DefaultValueInitialiser<T>\<close> and \<^verbatim>\<open>ContentsValidator<T>\<close> are type parameters.
  \<^verbatim>\<open>sizeof(long long unsigned)\<close> is 8, as on every ABI with 8-bit bytes and a 64-bit
  \<^verbatim>\<open>long long\<close>.
\<close>

datatype value_type = long_long_unsigned | SizeToType nat bool

definition sizeof_long_long_unsigned :: nat where
  "sizeof_long_long_unsigned = 8"

datatype ('i, 'v) bitmask_option =
    FixedLength nat
  | BitIndexingStartsFromMsb
  | DefaultValueInitialiser 'i
  | ContentsValidator 'v

record ('i, 'v) BitmaskValueBase_members =
  ValueType :: value_type
  SerialisedLen :: nat
  BitZeroIsMsb :: bool
  HasCustomInitialiser :: bool
  HasCustomValidator :: bool
  DefaultValueInitialiser_typedef :: "'i option"
  ContentsValidator_typedef :: "'v option"

fun BitmaskValueBase :: "('i, 'v) bitmask_option list \<Rightarrow> ('i, 'v) BitmaskValueBase_members" where
  "BitmaskValueBase [] =
     \<lparr>ValueType = long_long_unsigned,
      SerialisedLen = sizeof_long_long_unsigned,
      BitZeroIsMsb = False,
      HasCustomInitialiser = False,
      HasCustomValidator = False,
      DefaultValueInitialiser_typedef = None,
      ContentsValidator_typedef = None\<rparr>"
| "BitmaskValueBase (FixedLength TLen # TOptions) =
     (BitmaskValueBase TOptions)
       \<lparr>SerialisedLen := TLen, ValueType := SizeToType TLen False\<rparr>"
| "BitmaskValueBase (BitIndexingStartsFromMsb # TOptions) =
     (BitmaskValueBase TOptions)\<lparr>BitZeroIsMsb := True\<rparr>"
| "BitmaskValueBase (DefaultValueInitialiser T # TOptions) =
     (BitmaskValueBase TOptions)
       \<lparr>DefaultValueInitialiser_typedef := Some T, HasCustomInitialiser := True\<rparr>"
| "BitmaskValueBase (ContentsValidator T # TOptions) =
     (BitmaskValueBase TOptions)
       \<lparr>ContentsValidator_typedef := Some T, HasCustomValidator := True\<rparr>"

text \<open>The four kinds of option the class template has a specialisation for.\<close>

datatype option_kind = FixedLength_kind | BitIndexing_kind | Initialiser_kind | Validator_kind

fun kind_of :: "('i, 'v) bitmask_option \<Rightarrow> option_kind" where
  "kind_of (FixedLength TLen) = FixedLength_kind"
| "kind_of BitIndexingStartsFromMsb = BitIndexing_kind"
| "kind_of (DefaultValueInitialiser T) = Initialiser_kind"
| "kind_of (ContentsValidator T) = Validator_kind"

text \<open>What one specialisation adds to its base class.\<close>

fun specialise ::
  "('i, 'v) bitmask_option \<Rightarrow> ('i, 'v) BitmaskValueBase_members \<Rightarrow> ('i, 'v) BitmaskValueBase_members" where
  "specialise (FixedLength TLen) base =
     base\<lparr>SerialisedLen := TLen, ValueType := SizeToType TLen False\<rparr>"
| "specialise BitIndexingStartsFromMsb base = base\<lparr>BitZeroIsMsb := True\<rparr>"
| "specialise (DefaultValueInitialiser T) base =
     base\<lparr>DefaultValueInitialiser_typedef := Some T, HasCustomInitialiser := True\<rparr>"
| "specialise (ContentsValidator T) base =
     base\<lparr>ContentsValidator_typedef := Some T, HasCustomValidator := True\<rparr>"

section \<open>Bitfield adapter (comms_champion/field_wrapper/BitfieldWrapper.h)\<close>

text \<open>
  \<^verbatim>\<open>BitfieldWrapperT<TField>\<close> carries three static assertions, checked when the class
  template is instantiated, that is when \<^verbatim>\<open>makeBitfieldWrapper\<close> is compiled for a
  field type. A field type is described by what the assertions inspect. The wrapper's
  \<^verbatim>\<open>UnderlyingType\<close> is the argument of \<^verbatim>\<open>NumericValueWrapper<long long unsigned>\<close>.
  Instantiation is a function of the field type alone; it yields the message of the
  first failing assertion, or nothing when the class compiles.
\<close>

record field_type =
  isBitfield :: bool
  sizeof_ValueType :: nat
  is_signed_ValueType :: bool

definition sizeof_UnderlyingType :: nat where
  "sizeof_UnderlyingType = sizeof_long_long_unsigned"

definition BitfieldWrapperT_static_assert :: "field_type \<Rightarrow> string option" where
  "BitfieldWrapperT_static_assert TField =
     (if \<not> isBitfield TField then Some ''Must be of Bitfield field type''
      else if \<not> (sizeof_ValueType TField \<le> sizeof_UnderlyingType)
        then Some ''This wrapper cannot handle provided field.''
      else if \<not> (is_signed_ValueType TField \<or> sizeof_ValueType TField < sizeof_UnderlyingType)
        then Some ''This wrapper cannot handle provided field.''
      else None)"

text \<open>
  An instance of the wrapper holds a reference to the field it was built over.
  \<^verbatim>\<open>makeBitfieldWrapper\<close> exists for a field type only if the class compiles.
\<close>

record 'f BitfieldWrapper =
  field_ref :: 'f

definition makeBitfieldWrapper :: "field_type \<Rightarrow> 'f \<Rightarrow> string + 'f BitfieldWrapper" where
  "makeBitfieldWrapper TField fld =
     (case BitfieldWrapperT_static_assert TField of
        Some msg \<Rightarrow> Inl msg
      | None \<Rightarrow> Inr \<lparr>field_ref = fld\<rparr>)"


section \<open>Bytes, status codes, exceptions and \<^verbatim>\<open>std::vector\<close>\<close>

type_synonym byte = "8 word"

text \<open>\<^verbatim>\<open>DataSeq\<close> and \<^verbatim>\<open>SerialisedSeq\<close> are \<^verbatim>\<open>std::vector<std::uint8_t>\<close>.\<close>

type_synonym DataSeq = "byte list"

text \<open>
  Modelled from the spec: \<^verbatim>\<open>comms::ErrorStatus\<close> is declared in the comms library
  (comms/ErrorStatus.h), which is not among the sources. The enumerators are the
  statuses the specification names.
\<close>

datatype ErrorStatus = Success | NotEnoughData | InvalidMsgData | ProtocolError | BufferOverflow

datatype cpp_exception = bad_alloc | length_error | other_exception nat

text \<open>
  A call that does not return normally either lets an exception escape or stops the
  process in a failed \<^verbatim>\<open>assert\<close>. Assertions are active unless the build defines
  \<^verbatim>\<open>NDEBUG\<close>; the functions that contain one take that flag as an argument.
\<close>

datatype abnormal = Throws cpp_exception | AssertFailed string

text \<open>
  What the vector operations depend on besides their arguments: \<^verbatim>\<open>max_size()\<close> and
  whether the allocator can provide storage for a given number of bytes. Growing beyond
  \<^verbatim>\<open>max_size()\<close> throws \<^verbatim>\<open>std::length_error\<close>, a failed allocation throws
  \<^verbatim>\<open>std::bad_alloc\<close>; shrinking and staying within the present size do neither.
\<close>

record vector_env =
  max_size :: nat
  can_allocate :: "nat \<Rightarrow> bool"

definition resize :: "vector_env \<Rightarrow> nat \<Rightarrow> DataSeq \<Rightarrow> cpp_exception + DataSeq" where
  "resize env n data =
     (if n \<le> length data then Inr (take n data)
      else if max_size env < n then Inl length_error
      else if \<not> can_allocate env n then Inl bad_alloc
      else Inr (data @ replicate (n - length data) 0))"

definition reserve :: "vector_env \<Rightarrow> nat \<Rightarrow> DataSeq \<Rightarrow> cpp_exception + DataSeq" where
  "reserve env n data =
     (if n \<le> length data then Inr data
      else if max_size env < n then Inl length_error
      else if \<not> can_allocate env n then Inl bad_alloc
      else Inr data)"

section \<open>Fields as the adapters see them\<close>

text \<open>
  The wrappers are class templates over the field type \<^verbatim>\<open>TField\<close>. What they use of a
  field is its member functions \<^verbatim>\<open>length()\<close>, \<^verbatim>\<open>write(iter, maxLen)\<close> and
  \<^verbatim>\<open>read(iter, size)\<close>; messages also use \<^verbatim>\<open>valid()\<close> and \<^verbatim>\<open>refresh()\<close>. A field
  class is the record of these functions over the field object's state \<open>'f\<close>:
  \<^item> \<open>field_write\<close> yields the status and the bytes pushed through the output iterator;
  \<^item> \<open>field_read\<close> takes the bytes at the input iterator and the announced size and
    yields the status, the field object afterwards and the number of bytes by which the
    iterator advanced.
\<close>

record 'f FieldClass =
  field_length :: "'f \<Rightarrow> nat"
  field_write :: "'f \<Rightarrow> nat \<Rightarrow> ErrorStatus \<times> DataSeq"
  field_read :: "'f \<Rightarrow> DataSeq \<Rightarrow> nat \<Rightarrow> ErrorStatus \<times> 'f \<times> nat"
  field_valid :: "'f \<Rightarrow> bool"
  field_refresh :: "'f \<Rightarrow> bool \<times> 'f"

section \<open>Opaque-value adapter (comms_champion/field_wrapper/UnknownValueWrapper.h)\<close>

text \<open>
  \<^verbatim>\<open>UnknownValueWrapperT<TField>\<close> holds a reference to a live field; its member
  functions take the field object and, where they may change it, return it.

  \<^verbatim>\<open>getSerialisedValueImpl\<close> reserves \<^verbatim>\<open>field.length()\<close> bytes in an empty vector and
  lets the field write through a back inserter with \<^verbatim>\<open>value.max_size()\<close> as the limit;
  the status of the write is discarded.
\<close>

definition getSerialisedValueImpl ::
  "vector_env \<Rightarrow> 'f FieldClass \<Rightarrow> 'f \<Rightarrow> cpp_exception + DataSeq" where
  "getSerialisedValueImpl env TField fld =
     (case reserve env (field_length TField fld) [] of
        Inl e \<Rightarrow> Inl e
      | Inr val \<Rightarrow> Inr (val @ snd (field_write TField fld (max_size env))))"

text \<open>
  \<^verbatim>\<open>setSerialisedValueImpl\<close> returns early on an empty sequence; otherwise it hands
  the bytes and their number to the field's own \<^verbatim>\<open>read\<close> and reports whether the
  status was \<^verbatim>\<open>Success\<close>.
\<close>

definition setSerialisedValueImpl :: "'f FieldClass \<Rightarrow> DataSeq \<Rightarrow> 'f \<Rightarrow> bool \<times> 'f" where
  "setSerialisedValueImpl TField val fld =
     (if val = [] then (False, fld)
      else (case field_read TField fld val (length val) of
              (es, fld', consumed) \<Rightarrow> (es = Success, fld')))"

text \<open>
  Modelled from the spec: the field classes of the comms library are not among the
  sources. Section 4.1 gives their contract: \<^verbatim>\<open>read\<close> consumes exactly the bytes the
  field's configuration requires, returns \<^verbatim>\<open>NotEnoughData\<close> if \<^verbatim>\<open>maxLen\<close> is
  insufficient, \<^verbatim>\<open>InvalidMsgData\<close> if the bytes violate a custom validator, else
  \<^verbatim>\<open>Success\<close> and updates the field's value; \<^verbatim>\<open>write\<close> produces exactly
  \<^verbatim>\<open>length()\<close> bytes and returns \<^verbatim>\<open>BufferOverflow\<close> if \<^verbatim>\<open>maxLen\<close> is insufficient;
  \<^verbatim>\<open>valid\<close> is the validator on the current value (always true by default);
  \<^verbatim>\<open>refresh\<close> reports whether anything changed. A configuration fixes the wire image of
  a value, the number of bytes a read requires (a constant for a fixed-length field, the
  announced size for a blob), the decoding of those bytes, the validator and the
  normalisation that \<^verbatim>\<open>refresh\<close> applies.
\<close>

record 'v FieldConfig =
  serialise :: "'v \<Rightarrow> DataSeq"
  required :: "nat \<Rightarrow> nat"
  deserialise :: "DataSeq \<Rightarrow> 'v"
  validator :: "'v \<Rightarrow> bool"
  normalise :: "'v \<Rightarrow> 'v"

definition Field_length :: "'v FieldConfig \<Rightarrow> 'v \<Rightarrow> nat" where
  "Field_length cfg v = length (serialise cfg v)"

definition Field_write :: "'v FieldConfig \<Rightarrow> 'v \<Rightarrow> nat \<Rightarrow> ErrorStatus \<times> DataSeq" where
  "Field_write cfg v maxLen =
     (if maxLen < Field_length cfg v then (BufferOverflow, [])
      else (Success, serialise cfg v))"

definition Field_read :: "'v FieldConfig \<Rightarrow> 'v \<Rightarrow> DataSeq \<Rightarrow> nat \<Rightarrow> ErrorStatus \<times> 'v \<times> nat" where
  "Field_read cfg v input maxLen =
     (let n = required cfg maxLen in
      if maxLen < n then (NotEnoughData, v, 0)
      else if \<not> validator cfg (deserialise cfg (take n input)) then (InvalidMsgData, v, n)
      else (Success, deserialise cfg (take n input), n))"

definition Field_valid :: "'v FieldConfig \<Rightarrow> 'v \<Rightarrow> bool" where
  "Field_valid cfg v = validator cfg v"

definition Field_refresh :: "'v FieldConfig \<Rightarrow> 'v \<Rightarrow> bool \<times> 'v" where
  "Field_refresh cfg v = (normalise cfg v \<noteq> v, normalise cfg v)"

definition Field_class :: "'v FieldConfig \<Rightarrow> 'v FieldClass" where
  "Field_class cfg =
     \<lparr>field_length = Field_length cfg,
      field_write = Field_write cfg,
      field_read = Field_read cfg,
      field_valid = Field_valid cfg,
      field_refresh = Field_refresh cfg\<rparr>"

section \<open>Messages (comms_champion/MessageBase.h)\<close>

text \<open>
  \<^verbatim>\<open>MessageBase\<close> derives from \<^verbatim>\<open>CommsBase\<close>, the message class of the comms library
  configured with a \<^verbatim>\<open>const std::uint8_t*\<close> read iterator and a
  \<^verbatim>\<open>std::back_insert_iterator<std::vector<std::uint8_t>>\<close> write iterator. The comms
  library is not among the sources, so the member functions of \<^verbatim>\<open>CommsBase\<close> that
  \<^verbatim>\<open>MessageBase\<close> calls are parameters, a record of functions over the message state \<open>'m\<close>:
  \<^item> \<open>comms_write\<close> yields the status and the bytes put through the write iterator,
    or the exception that escaped;
  \<^item> \<open>comms_read\<close> takes the bytes at the read iterator and the buffer size and yields
    the status and the message afterwards.
\<close>

record 'm CommsBase =
  comms_length :: "'m \<Rightarrow> cpp_exception + nat"
  comms_write :: "'m \<Rightarrow> nat \<Rightarrow> cpp_exception + ErrorStatus \<times> DataSeq"
  comms_read :: "'m \<Rightarrow> DataSeq \<Rightarrow> nat \<Rightarrow> ErrorStatus \<times> 'm"
  comms_refresh :: "'m \<Rightarrow> bool \<times> 'm"
  comms_valid :: "'m \<Rightarrow> bool"

text \<open>
  Every member function of \<^verbatim>\<open>MessageBase\<close> returns, beside its result, the calls it
  made to member functions of \<^verbatim>\<open>CommsBase\<close>, in the order it made them.
\<close>

datatype comms_call = Call_refresh | Call_valid | Call_length | Call_write nat | Call_read nat

definition refreshMsgImpl :: "'m CommsBase \<Rightarrow> 'm \<Rightarrow> comms_call list \<times> bool \<times> 'm" where
  "refreshMsgImpl cb m = ([Call_refresh], comms_refresh cb m)"

definition isValidImpl :: "'m CommsBase \<Rightarrow> 'm \<Rightarrow> comms_call list \<times> bool" where
  "isValidImpl cb m = ([Call_valid], comms_valid cb m)"

text \<open>
  The statements inside the \<^verbatim>\<open>try\<close> block of \<^verbatim>\<open>encodeDataRandomAccess\<close>:
  \<^verbatim>\<open>data.resize(CommsBase::length())\<close>, the write through a pointer to the first
  byte with \<^verbatim>\<open>data.size()\<close> as the limit, \<^verbatim>\<open>assert\<close> and \<^verbatim>\<open>data.clear()\<close> when the
  status is not \<^verbatim>\<open>Success\<close>, and otherwise \<^verbatim>\<open>data.resize\<close> to the distance the
  iterator advanced. The write overwrites the front of the buffer.
\<close>

definition encodeDataRandomAccess_try ::
  "vector_env \<Rightarrow> bool \<Rightarrow> 'm CommsBase \<Rightarrow> 'm \<Rightarrow> comms_call list \<times> (abnormal + DataSeq)" where
  "encodeDataRandomAccess_try env NDEBUG cb m =
     (case comms_length cb m of
        Inl e \<Rightarrow> ([Call_length], Inl (Throws e))
      | Inr len \<Rightarrow>
          (case resize env len [] of
             Inl e \<Rightarrow> ([Call_length], Inl (Throws e))
           | Inr data \<Rightarrow>
               (case comms_write cb m (length data) of
                  Inl e \<Rightarrow> ([Call_length, Call_write (length data)], Inl (Throws e))
                | Inr (es, written) \<Rightarrow>
                    if es \<noteq> Success then
                      ([Call_length, Call_write (length data)],
                       if NDEBUG then Inr [] else Inl (AssertFailed ''Data serialisation failed''))
                    else
                      (case resize env (length written) (written @ drop (length written) data) of
                         Inl e \<Rightarrow> ([Call_length, Call_write (length data)], Inl (Throws e))
                       | Inr data' \<Rightarrow> ([Call_length, Call_write (length data)], Inr data')))))"

text \<open>\<^verbatim>\<open>catch (...) { data.clear(); }\<close> and \<^verbatim>\<open>return data\<close>.\<close>

definition encodeDataRandomAccess ::
  "vector_env \<Rightarrow> bool \<Rightarrow> 'm CommsBase \<Rightarrow> 'm \<Rightarrow> comms_call list \<times> (abnormal + DataSeq)" where
  "encodeDataRandomAccess env NDEBUG cb m =
     (case encodeDataRandomAccess_try env NDEBUG cb m of
        (calls, Inl (Throws e)) \<Rightarrow> (calls, Inr [])
      | (calls, Inl (AssertFailed msg)) \<Rightarrow> (calls, Inl (AssertFailed msg))
      | (calls, Inr data) \<Rightarrow> (calls, Inr data))"

text \<open>
  \<^verbatim>\<open>encodeDataWithOutputIter\<close> writes through a back inserter into an empty vector
  with \<^verbatim>\<open>data.max_size()\<close> as the limit, asserts that the status is \<^verbatim>\<open>Success\<close>,
  discards the status and returns the vector. Nothing catches an exception here.
\<close>

definition encodeDataWithOutputIter ::
  "vector_env \<Rightarrow> bool \<Rightarrow> 'm CommsBase \<Rightarrow> 'm \<Rightarrow> comms_call list \<times> (abnormal + DataSeq)" where
  "encodeDataWithOutputIter env NDEBUG cb m =
     (case comms_write cb m (max_size env) of
        Inl e \<Rightarrow> ([Call_write (max_size env)], Inl (Throws e))
      | Inr (es, written) \<Rightarrow>
          if \<not> NDEBUG \<and> es \<noteq> Success
          then ([Call_write (max_size env)], Inl (AssertFailed ''es == comms::ErrorStatus::Success''))
          else ([Call_write (max_size env)], Inr written))"

text \<open>
  \<^verbatim>\<open>encodeDataIntenal\<close> is overloaded on the category tag of the write iterator. The
  static assertion in \<^verbatim>\<open>encodeDataImpl\<close> admits the two tags below, and the one in the
  output-iterator overload admits only the back inserter into a \<^verbatim>\<open>DataSeq\<close>.
\<close>

datatype iterator_category = random_access_iterator_tag | output_iterator_tag

fun encodeDataIntenal ::
  "iterator_category \<Rightarrow> vector_env \<Rightarrow> bool \<Rightarrow> 'm CommsBase \<Rightarrow> 'm
     \<Rightarrow> comms_call list \<times> (abnormal + DataSeq)" where
  "encodeDataIntenal random_access_iterator_tag env NDEBUG cb m =
     encodeDataRandomAccess env NDEBUG cb m"
| "encodeDataIntenal output_iterator_tag env NDEBUG cb m =
     encodeDataWithOutputIter env NDEBUG cb m"

text \<open>
  The write iterator that \<^verbatim>\<open>MessageBase\<close> passes to \<^verbatim>\<open>CommsBase\<close> is
  \<^verbatim>\<open>std::back_insert_iterator\<close>, whose category is \<^verbatim>\<open>std::output_iterator_tag\<close>.
\<close>

definition WriteIterator_category :: iterator_category where
  "WriteIterator_category = output_iterator_tag"

definition encodeDataImpl ::
  "vector_env \<Rightarrow> bool \<Rightarrow> 'm CommsBase \<Rightarrow> 'm \<Rightarrow> comms_call list \<times> (abnormal + DataSeq)" where
  "encodeDataImpl env NDEBUG cb m = encodeDataIntenal WriteIterator_category env NDEBUG cb m"

text \<open>
  Decoding. The read iterator is a pointer, so \<^verbatim>\<open>decodeDataRandomAccess\<close> selects the
  overload that takes the address of the first byte; both overloads pass the bytes of
  \<^verbatim>\<open>data\<close> and \<^verbatim>\<open>data.size()\<close> on. For an empty \<^verbatim>\<open>data\<close> the address is not
  dereferenced by a read that respects the announced size of 0; the iterator then
  stands for the empty sequence.
\<close>

definition decodeDataRandomAccessWithIter ::
  "'m CommsBase \<Rightarrow> DataSeq \<Rightarrow> nat \<Rightarrow> 'm \<Rightarrow> comms_call list \<times> bool \<times> 'm" where
  "decodeDataRandomAccessWithIter cb iter bufSize m =
     (case comms_read cb m iter bufSize of
        (es, m') \<Rightarrow> ([Call_read bufSize], es = Success, m'))"

datatype read_iterator_tag = UseDataSeqIterTag | UsePointerTag

fun decodeDataRandomAccessInternal ::
  "read_iterator_tag \<Rightarrow> 'm CommsBase \<Rightarrow> DataSeq \<Rightarrow> 'm \<Rightarrow> comms_call list \<times> bool \<times> 'm" where
  "decodeDataRandomAccessInternal UseDataSeqIterTag cb data m =
     decodeDataRandomAccessWithIter cb data (length data) m"
| "decodeDataRandomAccessInternal UsePointerTag cb data m =
     decodeDataRandomAccessWithIter cb data (length data) m"

definition decodeDataRandomAccess ::
  "'m CommsBase \<Rightarrow> DataSeq \<Rightarrow> 'm \<Rightarrow> comms_call list \<times> bool \<times> 'm" where
  "decodeDataRandomAccess cb data m = decodeDataRandomAccessInternal UsePointerTag cb data m"

definition decodeDataImpl ::
  "'m CommsBase \<Rightarrow> DataSeq \<Rightarrow> 'm \<Rightarrow> comms_call list \<times> bool \<times> 'm" where
  "decodeDataImpl cb data m = decodeDataRandomAccess cb data m"

text \<open>
  Modelled from the spec: the message class of the comms library, from which
  \<^verbatim>\<open>CommsBase\<close> is built, is not among the sources. Sections 3 and 4.3 describe it: a
  message is an ordered list of fields; writing writes every field in declared order
  into one buffer and aborts at the first field failure; reading reads every field in
  declared order and stops at the first field failure; a message is valid if every
  field is; refreshing refreshes the fields and reports whether anything changed; the
  length is the sum of the fields' lengths. A field of a message is a field class with
  the state of the field object. \<open>readFields\<close> also returns the status of every field
  read it performed, in order.
\<close>

type_synonym 'f message_field = "'f FieldClass \<times> 'f"

fun readFields ::
  "'f message_field list \<Rightarrow> DataSeq \<Rightarrow> nat
     \<Rightarrow> ErrorStatus list \<times> ErrorStatus \<times> 'f message_field list" where
  "readFields [] input len = ([], Success, [])"
| "readFields (f # fs) input len =
     (case field_read (fst f) (snd f) input len of
        (es, obj, consumed) \<Rightarrow>
          if es \<noteq> Success then ([es], es, (fst f, obj) # fs)
          else (case readFields fs (drop consumed input) (len - consumed) of
                  (statuses, es', fs') \<Rightarrow> (es # statuses, es', (fst f, obj) # fs')))"

fun writeFields :: "'f message_field list \<Rightarrow> nat \<Rightarrow> ErrorStatus \<times> DataSeq" where
  "writeFields [] maxLen = (Success, [])"
| "writeFields (f # fs) maxLen =
     (case field_write (fst f) (snd f) maxLen of
        (es, bytes) \<Rightarrow>
          if es \<noteq> Success then (es, bytes)
          else (case writeFields fs (maxLen - length bytes) of
                  (es', rest) \<Rightarrow> (es', bytes @ rest)))"

fun lengthFields :: "'f message_field list \<Rightarrow> nat" where
  "lengthFields [] = 0"
| "lengthFields (f # fs) = field_length (fst f) (snd f) + lengthFields fs"

fun validFields :: "'f message_field list \<Rightarrow> bool" where
  "validFields [] = True"
| "validFields (f # fs) = (field_valid (fst f) (snd f) \<and> validFields fs)"

fun refreshFields :: "'f message_field list \<Rightarrow> bool \<times> 'f message_field list" where
  "refreshFields [] = (False, [])"
| "refreshFields (f # fs) =
     (case field_refresh (fst f) (snd f) of
        (changed, obj) \<Rightarrow>
          (case refreshFields fs of
             (changed', fs') \<Rightarrow> (changed \<or> changed', (fst f, obj) # fs')))"

definition Message :: "'f message_field list CommsBase" where
  "Message =
     \<lparr>comms_length = (\<lambda>fs. Inr (lengthFields fs)),
      comms_write = (\<lambda>fs maxLen. Inr (writeFields fs maxLen)),
      comms_read = (\<lambda>fs input len. snd (readFields fs input len)),
      comms_refresh = refreshFields,
      comms_valid = validFields\<rparr>"

section \<open>Example instances\<close>

text \<open>
  A platform with a 64-bit \<^verbatim>\<open>max_size()\<close> whose allocator serves requests up to a
  megabyte, and one whose allocator serves none.
\<close>

definition example_env :: vector_env where
  "example_env = \<lparr>max_size = 9223372036854775807, can_allocate = (\<lambda>n. n \<le> 1048576)\<rparr>"

definition exhausted_env :: vector_env where
  "exhausted_env = \<lparr>max_size = 9223372036854775807, can_allocate = (\<lambda>n. False)\<rparr>"

text \<open>
  A one-byte field of the specification's kind: the wire image of a value is the value
  itself, a read requires one byte, and the custom validator accepts values below 128.
\<close>

definition first_byte :: "DataSeq \<Rightarrow> byte" where
  "first_byte bs = (case bs of [] \<Rightarrow> 0 | b # rest \<Rightarrow> b)"

definition low_byte_config :: "byte FieldConfig" where
  "low_byte_config =
     \<lparr>serialise = (\<lambda>v. [v]),
      required = (\<lambda>maxLen. 1),
      deserialise = first_byte,
      validator = (\<lambda>v. v < 128),
      normalise = (\<lambda>v. v)\<rparr>"

definition low_byte :: "byte FieldClass" where
  "low_byte = Field_class low_byte_config"

text \<open>A field class whose \<^verbatim>\<open>write\<close> reports a failure without emitting anything.\<close>

definition unwritable :: "byte FieldClass" where
  "unwritable = low_byte\<lparr>field_write := (\<lambda>v maxLen. (InvalidMsgData, []))\<rparr>"

text \<open>
  A field class whose \<^verbatim>\<open>read\<close> stores the byte it finds without consulting the
  validator, which only \<^verbatim>\<open>valid()\<close> applies.
\<close>

definition unchecked_byte :: "byte FieldClass" where
  "unchecked_byte =
     low_byte\<lparr>field_read :=
       (\<lambda>v input len. if len < 1 then (NotEnoughData, v, 0) else (Success, first_byte input, 1))\<rparr>"

definition one_unchecked :: "byte message_field list" where
  "one_unchecked = [(unchecked_byte, 0)]"

text \<open>Messages of two fields, and message classes whose member functions throw.\<close>

definition two_bytes :: "byte message_field list" where
  "two_bytes = [(low_byte, 1), (low_byte, 2)]"

definition half_writable :: "byte message_field list" where
  "half_writable = [(low_byte, 1), (unwritable, 2)]"

definition length_throws :: "byte message_field list CommsBase" where
  "length_throws = Message\<lparr>comms_length := (\<lambda>fs. Inl (other_exception 1))\<rparr>"

definition write_throws :: "byte message_field list CommsBase" where
  "write_throws = Message\<lparr>comms_write := (\<lambda>fs maxLen. Inl (other_exception 2))\<rparr>"

section \<open>Properties\<close>

subsection \<open>Traversal utilities\<close>

lemma length_in_order: "length (fst (in_order func xs s)) = length xs"
proof (induction xs arbitrary: s)
  case Nil
  show ?case by simp
next
  case (Cons x xs)
  obtain e s' where f: "func x s = (e, s')" by (cases "func x s")
  obtain es s'' where r: "in_order func xs s' = (es, s'')" by (cases "in_order func xs s'")
  have "length es = length xs"
    using Cons.IH [of s'] r by simp
  then show ?case
    using f r by simp
qed

lemma TupleForEachHelper_exec_suffix:
  "TupleForEachHelper_exec (length ys) (xs @ ys) func s =
     (xs @ fst (in_order func ys s), snd (in_order func ys s))"
proof (induction ys arbitrary: xs s)
  case Nil
  show ?case by simp
next
  case (Cons y ys)
  obtain e s' where f: "func y s = (e, s')" by (cases "func y s")
  have "TupleForEachHelper_exec (length (y # ys)) (xs @ y # ys) func s =
        TupleForEachHelper_exec (length ys) ((xs @ [e]) @ ys) func s'"
    using f by simp
  also have "\<dots> = ((xs @ [e]) @ fst (in_order func ys s'), snd (in_order func ys s'))"
    by (rule Cons.IH)
  finally show ?case
    using f by (simp split: prod.splits)
qed

lemma tupleForEach_in_order: "tupleForEach tuple func s = in_order func tuple s"
  using TupleForEachHelper_exec_suffix [of tuple "[]" func s]
  by (simp add: tupleForEach_def)

lemma in_order_recording_log:
  "fst (snd (in_order (recording func) xs (log, s))) = log @ xs"
proof (induction xs arbitrary: log s)
  case Nil
  show ?case by simp
next
  case (Cons x xs)
  obtain e s' where f: "func x s = (e, s')" by (cases "func x s")
  have "fst (snd (in_order (recording func) (x # xs) (log, s))) =
        fst (snd (in_order (recording func) xs (log @ [x], s')))"
    using f by (simp add: recording_def split: prod.splits)
  then show ?case by (simp add: Cons.IH)
qed

text \<open>
  C3. For every tuple of K elements and every callback, \<^verbatim>\<open>tupleForEach\<close> is the
  in-order traversal, and the log of the callback's invocations is exactly the tuple's
  elements from index 0 to K - 1: K invocations, one per element, in declared order.
\<close>

theorem tupleForEach_once_per_element_in_order:
  "tupleForEach tuple func s = in_order func tuple s
   \<and> fst (snd (tupleForEach tuple (recording func) ([], s))) = tuple
   \<and> length (fst (snd (tupleForEach tuple (recording func) ([], s)))) = length tuple
   \<and> fst (snd (tupleForEach tuple (recording func) ([], s))) = map (\<lambda>i. tuple ! i) [0..<length tuple]"
proof -
  have log: "fst (snd (tupleForEach tuple (recording func) ([], s))) = tuple"
    using in_order_recording_log [of func tuple "[]" s]
    by (simp add: tupleForEach_in_order)
  have "tupleForEach tuple func s = in_order func tuple s"
    by (rule tupleForEach_in_order)
  then show ?thesis
    unfolding log by (simp add: map_nth)
qed

subsection \<open>Bitmask option chain\<close>

lemma BitmaskValueBase_foldr:
  "BitmaskValueBase opts = foldr specialise opts (BitmaskValueBase [])"
proof (induction opts)
  case Nil
  show ?case by simp
next
  case (Cons x xs)
  then show ?case by (cases x) simp_all
qed

lemma specialise_commute:
  "kind_of x \<noteq> kind_of y \<Longrightarrow> specialise x (specialise y m) = specialise y (specialise x m)"
  by (cases x; cases y) simp_all

lemma specialise_comp_commute:
  assumes "distinct (map kind_of xs)" "x \<in> set xs" "y \<in> set xs"
  shows "specialise x \<circ> specialise y = specialise y \<circ> specialise x"
proof (cases "x = y")
  case True
  then show ?thesis by simp
next
  case False
  have "inj_on kind_of (set xs)"
    using assms(1) by (simp add: distinct_map)
  then have "kind_of x \<noteq> kind_of y"
    using False assms(2,3) by (auto dest: inj_onD)
  then show ?thesis
    by (auto simp: fun_eq_iff specialise_commute)
qed

text \<open>
  C6. An option set names each kind of option at most once. Whatever the order in which
  the options of such a set are listed, the resolved class has the same members:
  serialised length, value type, bit-index origin, validator and initialiser.
\<close>

theorem BitmaskValueBase_option_order_irrelevant:
  assumes "distinct (map kind_of opts)" and "mset opts' = mset opts"
  shows "BitmaskValueBase opts' = BitmaskValueBase opts"
proof -
  have d: "distinct (map kind_of (rev opts))"
    using assms(1) by (simp add: distinct_rev rev_map [symmetric])
  have "fold specialise (rev opts) = fold specialise (rev opts')"
  proof (rule fold_multiset_equiv)
    fix x y
    assume "x \<in> set (rev opts)" "y \<in> set (rev opts)"
    then show "specialise x \<circ> specialise y = specialise y \<circ> specialise x"
      using specialise_comp_commute [OF assms(1)] by simp
  next
    show "mset (rev opts) = mset (rev opts')"
      using assms(2) by simp
  qed
  then have "foldr specialise opts (BitmaskValueBase []) = foldr specialise opts' (BitmaskValueBase [])"
    by (simp add: foldr_conv_fold)
  then show ?thesis
    using BitmaskValueBase_foldr [of opts] BitmaskValueBase_foldr [of opts'] by simp
qed

theorem BitmaskValueBase_option_order_witness:
  "distinct (map kind_of
      [FixedLength 2, BitIndexingStartsFromMsb, ContentsValidator ''V'', DefaultValueInitialiser ''I''])
   \<and> BitmaskValueBase
        [DefaultValueInitialiser ''I'', ContentsValidator ''V'', FixedLength 2, BitIndexingStartsFromMsb]
     = BitmaskValueBase
        [FixedLength 2, BitIndexingStartsFromMsb, ContentsValidator ''V'', DefaultValueInitialiser ''I'']
   \<and> SerialisedLen (BitmaskValueBase
        [DefaultValueInitialiser ''I'', ContentsValidator ''V'', FixedLength 2, BitIndexingStartsFromMsb]) = 2"
proof -
  have d: "distinct (map kind_of
      [FixedLength 2, BitIndexingStartsFromMsb, ContentsValidator ''V'', DefaultValueInitialiser ''I''])"
    by simp
  have m: "mset [DefaultValueInitialiser ''I'', ContentsValidator ''V'', FixedLength 2, BitIndexingStartsFromMsb]
         = mset [FixedLength 2, BitIndexingStartsFromMsb, ContentsValidator ''V'', DefaultValueInitialiser ''I'']"
    by (simp add: add_mset_commute)
  show ?thesis
    using d BitmaskValueBase_option_order_irrelevant [OF d m] by simp
qed

text \<open>
  C7. With no options the class is the primary specialisation: the serialised length is
  that of a 64-bit unsigned value (8 bytes), there is no custom validator and no custom
  initialiser, and bit zero is not the most significant bit.
\<close>

theorem BitmaskValueBase_no_options_baseline:
  "SerialisedLen (BitmaskValueBase []) = 8
   \<and> 8 * SerialisedLen (BitmaskValueBase []) = 64
   \<and> ValueType (BitmaskValueBase []) = long_long_unsigned
   \<and> HasCustomValidator (BitmaskValueBase []) = False
   \<and> HasCustomInitialiser (BitmaskValueBase []) = False
   \<and> BitZeroIsMsb (BitmaskValueBase []) = False
   \<and> ContentsValidator_typedef (BitmaskValueBase []) = None
   \<and> DefaultValueInitialiser_typedef (BitmaskValueBase []) = None"
  by (simp add: sizeof_long_long_unsigned_def)

subsection \<open>Bitfield adapter\<close>

text \<open>
  C8. A field type whose value type is wider than the wrapper's 64-bit underlying type
  fails a static assertion of \<^verbatim>\<open>BitfieldWrapperT\<close>: the rejection depends on the field
  type only, and \<^verbatim>\<open>makeBitfieldWrapper\<close> yields no wrapper instance for any field
  object of that type.
\<close>

theorem BitfieldWrapperT_rejects_wider_field:
  assumes "sizeof_UnderlyingType < sizeof_ValueType TField"
  shows "8 * sizeof_UnderlyingType = 64
         \<and> BitfieldWrapperT_static_assert TField \<noteq> None
         \<and> isl (makeBitfieldWrapper TField fld)
         \<and> (\<forall>w. makeBitfieldWrapper TField fld \<noteq> Inr w)"
  using assms
  by (auto simp: makeBitfieldWrapper_def BitfieldWrapperT_static_assert_def
      sizeof_UnderlyingType_def sizeof_long_long_unsigned_def)

theorem BitfieldWrapperT_rejects_wider_field_witness:
  "sizeof_UnderlyingType
     < sizeof_ValueType \<lparr>isBitfield = True, sizeof_ValueType = 16, is_signed_ValueType = False\<rparr>
   \<and> makeBitfieldWrapper
        \<lparr>isBitfield = True, sizeof_ValueType = 16, is_signed_ValueType = False\<rparr> (0::nat)
       = Inl ''This wrapper cannot handle provided field.''"
proof -
  have h: "sizeof_UnderlyingType
     < sizeof_ValueType \<lparr>isBitfield = True, sizeof_ValueType = 16, is_signed_ValueType = False\<rparr>"
    by (simp add: sizeof_UnderlyingType_def sizeof_long_long_unsigned_def)
  have "isl (makeBitfieldWrapper
        \<lparr>isBitfield = True, sizeof_ValueType = 16, is_signed_ValueType = False\<rparr> (0::nat))"
    using BitfieldWrapperT_rejects_wider_field [OF h, of "0::nat"] by blast
  then show ?thesis
    using h
    by (simp add: makeBitfieldWrapper_def BitfieldWrapperT_static_assert_def
        sizeof_UnderlyingType_def sizeof_long_long_unsigned_def)
qed

subsection \<open>Decoding a message\<close>

lemma readFields_statuses_length:
  "length (fst (readFields fs input len)) \<le> length fs"
proof (induction fs arbitrary: input len)
  case Nil
  show ?case by simp
next
  case (Cons f fs)
  obtain es obj consumed where r: "field_read (fst f) (snd f) input len = (es, obj, consumed)"
    by (cases "field_read (fst f) (snd f) input len")
  show ?case
  proof (cases "es = Success")
    case False
    then show ?thesis using r by simp
  next
    case True
    obtain statuses es' fs' where
      rest: "readFields fs (drop consumed input) (len - consumed) = (statuses, es', fs')"
      by (cases "readFields fs (drop consumed input) (len - consumed)")
    have "length statuses \<le> length fs"
      using Cons.IH [of "drop consumed input" "len - consumed"] rest by simp
    then show ?thesis using r True rest by simp
  qed
qed

lemma readFields_failure_is_last:
  "butlast (fst (readFields fs input len))
     = replicate (length (fst (readFields fs input len)) - 1) Success"
proof (induction fs arbitrary: input len)
  case Nil
  show ?case by simp
next
  case (Cons f fs)
  obtain es obj consumed where r: "field_read (fst f) (snd f) input len = (es, obj, consumed)"
    by (cases "field_read (fst f) (snd f) input len")
  show ?case
  proof (cases "es = Success")
    case False
    then show ?thesis using r by simp
  next
    case True
    obtain statuses es' fs' where
      rest: "readFields fs (drop consumed input) (len - consumed) = (statuses, es', fs')"
      by (cases "readFields fs (drop consumed input) (len - consumed)")
    have ih: "butlast statuses = replicate (length statuses - 1) Success"
      using Cons.IH [of "drop consumed input" "len - consumed"] rest by simp
    show ?thesis
    proof (cases statuses)
      case Nil
      then show ?thesis using r True rest by simp
    next
      case (Cons a list)
      then have "butlast (Success # statuses) = Success # replicate (length statuses - 1) Success"
        using ih by simp
      also have "\<dots> = replicate (length (Success # statuses) - 1) Success"
        using Cons by simp
      finally show ?thesis using r True rest by simp
    qed
  qed
qed

lemma readFields_success_iff:
  "(fst (snd (readFields fs input len)) = Success)
     = (fst (readFields fs input len) = replicate (length fs) Success)"
proof (induction fs arbitrary: input len)
  case Nil
  show ?case by simp
next
  case (Cons f fs)
  obtain es obj consumed where r: "field_read (fst f) (snd f) input len = (es, obj, consumed)"
    by (cases "field_read (fst f) (snd f) input len")
  show ?case
  proof (cases "es = Success")
    case False
    then show ?thesis using r by auto
  next
    case True
    obtain statuses es' fs' where
      rest: "readFields fs (drop consumed input) (len - consumed) = (statuses, es', fs')"
      by (cases "readFields fs (drop consumed input) (len - consumed)")
    have "(es' = Success) = (statuses = replicate (length fs) Success)"
      using Cons.IH [of "drop consumed input" "len - consumed"] rest by simp
    then show ?thesis using r True rest by simp
  qed
qed

lemma readFields_rest_untouched:
  "drop (length (fst (readFields fs input len))) (snd (snd (readFields fs input len)))
     = drop (length (fst (readFields fs input len))) fs"
proof (induction fs arbitrary: input len)
  case Nil
  show ?case by simp
next
  case (Cons f fs)
  obtain es obj consumed where r: "field_read (fst f) (snd f) input len = (es, obj, consumed)"
    by (cases "field_read (fst f) (snd f) input len")
  show ?case
  proof (cases "es = Success")
    case False
    then show ?thesis using r by simp
  next
    case True
    obtain statuses es' fs' where
      rest: "readFields fs (drop consumed input) (len - consumed) = (statuses, es', fs')"
      by (cases "readFields fs (drop consumed input) (len - consumed)")
    have "drop (length statuses) fs' = drop (length statuses) fs"
      using Cons.IH [of "drop consumed input" "len - consumed"] rest by simp
    then show ?thesis using r True rest by simp
  qed
qed

lemma decodeDataImpl_unfold:
  "decodeDataImpl cb data m =
     ([Call_read (length data)],
      fst (comms_read cb m data (length data)) = Success,
      snd (comms_read cb m data (length data)))"
  by (simp add: decodeDataImpl_def decodeDataRandomAccess_def
      decodeDataRandomAccessWithIter_def split: prod.splits)

lemma Message_read: "comms_read Message fs input len = snd (readFields fs input len)"
  by (simp add: Message_def)

text \<open>
  C5. \<^verbatim>\<open>decodeDataImpl\<close> makes one call, \<^verbatim>\<open>CommsBase::read\<close> on the whole input, and
  returns whether its status is \<^verbatim>\<open>Success\<close>; it calls neither \<^verbatim>\<open>refresh\<close> nor
  \<^verbatim>\<open>valid\<close>. For a message that reads its fields in declared order, the result is true
  exactly when every one of the K fields was read and reported \<^verbatim>\<open>Success\<close>. Reading
  stops at the first failure: every read performed before the last one reported
  \<^verbatim>\<open>Success\<close>, and the fields after the last one read are as they were. A true result
  does not make the message valid: the message \<open>one_unchecked\<close> decodes the byte 200
  successfully and is invalid afterwards.
\<close>

theorem decodeDataImpl_true_iff_every_field_read_succeeds:
  "decodeDataImpl cb data m =
     ([Call_read (length data)],
      fst (comms_read cb m data (length data)) = Success,
      snd (comms_read cb m data (length data)))
   \<and> Call_refresh \<notin> set (fst (decodeDataImpl cb data m))
   \<and> Call_valid \<notin> set (fst (decodeDataImpl cb data m))
   \<and> fst (snd (decodeDataImpl Message data fs))
       = (fst (readFields fs data (length data)) = replicate (length fs) Success)
   \<and> length (fst (readFields fs data (length data))) \<le> length fs
   \<and> butlast (fst (readFields fs data (length data)))
       = replicate (length (fst (readFields fs data (length data))) - 1) Success
   \<and> drop (length (fst (readFields fs data (length data))))
          (snd (snd (decodeDataImpl Message data fs)))
       = drop (length (fst (readFields fs data (length data)))) fs
   \<and> fst (snd (decodeDataImpl Message [200] one_unchecked)) = True
   \<and> comms_valid Message (snd (snd (decodeDataImpl Message [200] one_unchecked))) = False"
proof -
  have d: "fst (snd (decodeDataImpl Message [200] one_unchecked)) = True"
    "comms_valid Message (snd (snd (decodeDataImpl Message [200] one_unchecked))) = False"
    by (simp_all add: decodeDataImpl_unfold Message_def one_unchecked_def unchecked_byte_def
        low_byte_def Field_class_def Field_valid_def low_byte_config_def first_byte_def)
  have a: "fst (snd (decodeDataImpl Message data fs))
       = (fst (readFields fs data (length data)) = replicate (length fs) Success)"
    using readFields_success_iff [of fs data "length data"]
    by (simp add: decodeDataImpl_unfold Message_read)
  have b: "drop (length (fst (readFields fs data (length data))))
          (snd (snd (decodeDataImpl Message data fs)))
       = drop (length (fst (readFields fs data (length data)))) fs"
    using readFields_rest_untouched [of fs data "length data"]
    by (simp add: decodeDataImpl_unfold Message_read)
  have c: "Call_refresh \<notin> set (fst (decodeDataImpl cb data m))"
    "Call_valid \<notin> set (fst (decodeDataImpl cb data m))"
    by (simp_all add: decodeDataImpl_unfold)
  show ?thesis
    using a b c d decodeDataImpl_unfold [of cb data m]
      readFields_statuses_length [of fs data "length data"]
      readFields_failure_is_last [of fs data "length data"]
    by blast
qed

subsection \<open>Opaque-value adapter\<close>

lemma Field_read_failure_keeps_value:
  "fst (Field_read cfg v input maxLen) \<noteq> Success
     \<Longrightarrow> fst (snd (Field_read cfg v input maxLen)) = v"
  by (simp add: Field_read_def Let_def split: if_splits)

lemma setSerialisedValueImpl_result:
  "fst (setSerialisedValueImpl TField val fld)
     = (val \<noteq> [] \<and> fst (field_read TField fld val (length val)) = Success)"
  by (simp add: setSerialisedValueImpl_def split: prod.splits)

lemma setSerialisedValueImpl_field:
  "val \<noteq> [] \<Longrightarrow>
   snd (setSerialisedValueImpl TField val fld) = fst (snd (field_read TField fld val (length val)))"
  by (simp add: setSerialisedValueImpl_def split: prod.splits)

text \<open>
  C4. For every field class, \<^verbatim>\<open>setSerialisedValueImpl\<close> on the empty sequence returns
  false and leaves the field as it was, and it returns true exactly when the bytes are
  not empty and the field's \<^verbatim>\<open>read\<close> of them reports \<^verbatim>\<open>Success\<close>. For a field of the
  specification's kind, whenever the bytes are empty or the read fails the result is
  false and the field has its prior value.
\<close>

theorem setSerialisedValueImpl_failure_keeps_value:
  "setSerialisedValueImpl TField [] fld = (False, fld)
   \<and> fst (setSerialisedValueImpl TField val fld)
       = (val \<noteq> [] \<and> fst (field_read TField fld val (length val)) = Success)
   \<and> (bytes = [] \<or> fst (field_read (Field_class cfg) v bytes (length bytes)) \<noteq> Success
        \<longrightarrow> setSerialisedValueImpl (Field_class cfg) bytes v = (False, v))"
proof -
  have empty: "setSerialisedValueImpl TField [] fld = (False, fld)"
    by (simp add: setSerialisedValueImpl_def)
  have failing: "setSerialisedValueImpl (Field_class cfg) bytes v = (False, v)"
    if "bytes = [] \<or> fst (field_read (Field_class cfg) v bytes (length bytes)) \<noteq> Success"
  proof (cases "bytes = []")
    case True
    then show ?thesis by (simp add: setSerialisedValueImpl_def)
  next
    case False
    with that have fails: "fst (Field_read cfg v bytes (length bytes)) \<noteq> Success"
      by (simp add: Field_class_def)
    have "fst (setSerialisedValueImpl (Field_class cfg) bytes v) = False"
      using fails by (simp add: setSerialisedValueImpl_result Field_class_def)
    moreover have "snd (setSerialisedValueImpl (Field_class cfg) bytes v) = v"
      using False Field_read_failure_keeps_value [OF fails]
      by (simp add: setSerialisedValueImpl_field Field_class_def)
    ultimately show ?thesis
      by (simp add: prod_eq_iff)
  qed
  show ?thesis
    using empty failing setSerialisedValueImpl_result [of TField val fld] by blast
qed

theorem setSerialisedValueImpl_failure_keeps_value_witness:
  "fst (field_read (Field_class low_byte_config) 5 [200] (length [200::byte])) \<noteq> Success
   \<and> setSerialisedValueImpl (Field_class low_byte_config) [200] 5 = (False, 5)
   \<and> setSerialisedValueImpl (Field_class low_byte_config) [] 5 = (False, 5)"
proof -
  have h: "fst (field_read (Field_class low_byte_config) 5 [200] (length [200::byte])) \<noteq> Success"
    by (simp add: Field_class_def Field_read_def low_byte_config_def first_byte_def)
  show ?thesis
    using h
      setSerialisedValueImpl_failure_keeps_value
        [where bytes = "[200]" and cfg = low_byte_config and v = 5
           and TField = low_byte and fld = 5 and val = "[]"]
      setSerialisedValueImpl_failure_keeps_value
        [where bytes = "[]" and cfg = low_byte_config and v = 5
           and TField = low_byte and fld = 5 and val = "[]"]
    by simp
qed

lemma reserve_ok:
  "n \<le> max_size env \<Longrightarrow> can_allocate env n \<Longrightarrow> reserve env n data = Inr data"
  by (simp add: reserve_def)

lemma Field_write_emits_length:
  "Field_length cfg v \<le> maxLen \<Longrightarrow> Field_write cfg v maxLen = (Success, serialise cfg v)"
  by (simp add: Field_write_def)

text \<open>
  C9. When the vector can reserve \<^verbatim>\<open>length()\<close> bytes, \<^verbatim>\<open>getSerialisedValueImpl\<close>
  returns exactly the bytes the field's \<^verbatim>\<open>write\<close> produces for the current value with
  \<^verbatim>\<open>max_size()\<close> as the limit. For a field of the specification's kind that write
  succeeds and the sequence has exactly \<^verbatim>\<open>length()\<close> bytes.
\<close>

theorem getSerialisedValueImpl_is_write_output:
  assumes "field_length TField fld \<le> max_size env"
    and "can_allocate env (field_length TField fld)"
  shows "getSerialisedValueImpl env TField fld = Inr (snd (field_write TField fld (max_size env)))
    \<and> (TField = Field_class cfg \<longrightarrow>
          field_write TField fld (max_size env) = (Success, serialise cfg fld)
          \<and> getSerialisedValueImpl env TField fld = Inr (serialise cfg fld)
          \<and> length (serialise cfg fld) = field_length TField fld)"
proof -
  have g: "getSerialisedValueImpl env TField fld = Inr (snd (field_write TField fld (max_size env)))"
    using reserve_ok [OF assms, of "[]"] by (simp add: getSerialisedValueImpl_def)
  have "field_write TField fld (max_size env) = (Success, serialise cfg fld)
          \<and> getSerialisedValueImpl env TField fld = Inr (serialise cfg fld)
          \<and> length (serialise cfg fld) = field_length TField fld"
    if c: "TField = Field_class cfg"
  proof -
    have len: "Field_length cfg fld \<le> max_size env"
      using assms(1) c by (simp add: Field_class_def)
    have w: "field_write TField fld (max_size env) = (Success, serialise cfg fld)"
      using Field_write_emits_length [OF len] c by (simp add: Field_class_def)
    show ?thesis
      using g w c by (simp add: Field_class_def Field_length_def)
  qed
  then show ?thesis
    using g by blast
qed

theorem getSerialisedValueImpl_is_write_output_witness:
  "field_length low_byte 5 \<le> max_size example_env
   \<and> can_allocate example_env (field_length low_byte 5)
   \<and> getSerialisedValueImpl example_env low_byte 5 = Inr [5]
   \<and> length [5::byte] = field_length low_byte 5"
proof -
  have h1: "field_length low_byte 5 \<le> max_size example_env"
    by (simp add: low_byte_def Field_class_def Field_length_def low_byte_config_def example_env_def)
  have h2: "can_allocate example_env (field_length low_byte 5)"
    by (simp add: low_byte_def Field_class_def Field_length_def low_byte_config_def example_env_def)
  have c: "low_byte = Field_class low_byte_config"
    by (simp add: low_byte_def)
  have s: "serialise low_byte_config 5 = [5]"
    by (simp add: low_byte_config_def)
  show ?thesis
    using h1 h2 c s getSerialisedValueImpl_is_write_output [OF h1 h2, of low_byte_config]
    by simp
qed

subsection \<open>Encoding a message\<close>

lemma encodeDataImpl_output_path:
  "encodeDataImpl env NDEBUG cb m = encodeDataWithOutputIter env NDEBUG cb m"
  by (simp add: encodeDataImpl_def WriteIterator_category_def)

lemma encodeDataWithOutputIter_calls:
  "fst (encodeDataWithOutputIter env NDEBUG cb m) = [Call_write (max_size env)]"
  by (simp add: encodeDataWithOutputIter_def split: sum.splits prod.splits)

lemma encodeDataRandomAccess_try_calls:
  "set (fst (encodeDataRandomAccess_try env NDEBUG cb m))
     \<subseteq> {Call_length} \<union> range Call_write"
  by (auto simp: encodeDataRandomAccess_try_def split: sum.splits prod.splits if_splits)

lemma encodeDataRandomAccess_calls:
  "fst (encodeDataRandomAccess env NDEBUG cb m) = fst (encodeDataRandomAccess_try env NDEBUG cb m)"
  by (simp add: encodeDataRandomAccess_def split: prod.splits sum.splits abnormal.splits)

lemma encodeDataRandomAccess_try_write_fails:
  assumes "comms_length cb m = Inr len"
    and "resize env len [] = Inr buf"
    and "comms_write cb m (length buf) = Inr (es, written)"
    and "es \<noteq> Success"
  shows "snd (encodeDataRandomAccess_try env NDEBUG cb m)
           = (if NDEBUG then Inr [] else Inl (AssertFailed ''Data serialisation failed''))"
  using assms by (simp add: encodeDataRandomAccess_try_def)

lemma encodeDataRandomAccess_try_write_succeeds:
  assumes "comms_length cb m = Inr len"
    and "resize env len [] = Inr buf"
    and "comms_write cb m (length buf) = Inr (Success, written)"
    and "length written \<le> length buf"
  shows "snd (encodeDataRandomAccess_try env NDEBUG cb m) = Inr written"
  using assms by (simp add: encodeDataRandomAccess_try_def resize_def)

lemma encodeDataRandomAccess_catch:
  "snd (encodeDataRandomAccess env NDEBUG cb m) =
     (case snd (encodeDataRandomAccess_try env NDEBUG cb m) of
        Inl (Throws e) \<Rightarrow> Inr []
      | Inl (AssertFailed msg) \<Rightarrow> Inl (AssertFailed msg)
      | Inr data \<Rightarrow> Inr data)"
  by (simp add: encodeDataRandomAccess_def split: prod.splits sum.splits abnormal.splits)

text \<open>
  The two encoding paths treat a failed write differently. On the random-access path a
  release build clears the buffer and returns the empty sequence, and a debug build stops
  in the assertion; when the write succeeds within the buffer the bytes written are
  returned. On the back-insert path a release build never looks at the status.
\<close>

lemma encode_write_failure_by_path:
  "(comms_length cb m = Inr len \<and> resize env len [] = Inr buf
      \<and> comms_write cb m (length buf) = Inr (es, written) \<and> es \<noteq> Success
     \<longrightarrow> snd (encodeDataRandomAccess env True cb m) = Inr []
         \<and> snd (encodeDataRandomAccess env False cb m)
             = Inl (AssertFailed ''Data serialisation failed''))
   \<and> (comms_write cb m (max_size env) = Inr (es', written')
     \<longrightarrow> snd (encodeDataWithOutputIter env True cb m) = Inr written'
         \<and> snd (encodeDataImpl env True cb m) = Inr written')
   \<and> (comms_length cb m = Inr len \<and> resize env len [] = Inr buf
      \<and> comms_write cb m (length buf) = Inr (Success, all_bytes)
      \<and> length all_bytes \<le> length buf
     \<longrightarrow> snd (encodeDataRandomAccess env NDEBUG cb m) = Inr all_bytes)"
proof -
  have ra: "snd (encodeDataRandomAccess env True cb m) = Inr []
         \<and> snd (encodeDataRandomAccess env False cb m)
             = Inl (AssertFailed ''Data serialisation failed'')"
    if "comms_length cb m = Inr len \<and> resize env len [] = Inr buf
      \<and> comms_write cb m (length buf) = Inr (es, written) \<and> es \<noteq> Success"
  proof -
    from that have l: "comms_length cb m = Inr len" and r: "resize env len [] = Inr buf"
      and w: "comms_write cb m (length buf) = Inr (es, written)" and f: "es \<noteq> Success"
      by simp_all
    show ?thesis
      using encodeDataRandomAccess_try_write_fails [OF l r w f, of True]
        encodeDataRandomAccess_try_write_fails [OF l r w f, of False]
      by (simp add: encodeDataRandomAccess_catch)
  qed
  have bi: "snd (encodeDataWithOutputIter env True cb m) = Inr written'
         \<and> snd (encodeDataImpl env True cb m) = Inr written'"
    if "comms_write cb m (max_size env) = Inr (es', written')"
    using that by (simp add: encodeDataImpl_output_path encodeDataWithOutputIter_def)
  have ok: "snd (encodeDataRandomAccess env NDEBUG cb m) = Inr all_bytes"
    if "comms_length cb m = Inr len \<and> resize env len [] = Inr buf
      \<and> comms_write cb m (length buf) = Inr (Success, all_bytes)
      \<and> length all_bytes \<le> length buf"
  proof -
    from that have l: "comms_length cb m = Inr len" and r: "resize env len [] = Inr buf"
      and w: "comms_write cb m (length buf) = Inr (Success, all_bytes)"
      and n: "length all_bytes \<le> length buf"
      by simp_all
    show ?thesis
      using encodeDataRandomAccess_try_write_succeeds [OF l r w n, of NDEBUG]
      by (simp add: encodeDataRandomAccess_catch)
  qed
  show ?thesis
    using ra bi ok by blast
qed

lemma encode_write_failure_by_path_example:
  "comms_length Message half_writable = Inr 2
   \<and> resize example_env 2 [] = Inr [0, 0]
   \<and> comms_write Message half_writable (length [0, 0 :: byte]) = Inr (InvalidMsgData, [1])
   \<and> InvalidMsgData \<noteq> Success
   \<and> comms_write Message half_writable (max_size example_env) = Inr (InvalidMsgData, [1])
   \<and> snd (encodeDataRandomAccess example_env True Message half_writable) = Inr []
   \<and> snd (encodeDataImpl example_env True Message half_writable) = Inr [1]
   \<and> comms_length Message two_bytes = Inr 2
   \<and> comms_write Message two_bytes (length [0, 0 :: byte]) = Inr (Success, [1, 2])
   \<and> length [1, 2 :: byte] \<le> length [0, 0 :: byte]
   \<and> snd (encodeDataRandomAccess example_env True Message two_bytes) = Inr [1, 2]"
proof -
  have l': "comms_length Message two_bytes = Inr 2"
    by (simp add: Message_def two_bytes_def low_byte_def Field_class_def
        Field_length_def low_byte_config_def)
  have w': "comms_write Message two_bytes (length [0, 0 :: byte]) = Inr (Success, [1, 2])"
    by (simp add: Message_def two_bytes_def low_byte_def Field_class_def
        Field_write_def Field_length_def low_byte_config_def)
  have l: "comms_length Message half_writable = Inr 2"
    by (simp add: Message_def half_writable_def low_byte_def unwritable_def Field_class_def
        Field_length_def low_byte_config_def)
  have r: "resize example_env 2 [] = Inr [0, 0]"
    by (simp add: resize_def example_env_def numeral_2_eq_2)
  have w: "comms_write Message half_writable n = Inr (InvalidMsgData, [1])" if "1 \<le> n" for n
    using that
    by (simp add: Message_def half_writable_def low_byte_def unwritable_def Field_class_def
        Field_write_def Field_length_def low_byte_config_def)
  have w2: "comms_write Message half_writable (length [0, 0 :: byte]) = Inr (InvalidMsgData, [1])"
    by (rule w) simp
  have wm: "comms_write Message half_writable (max_size example_env) = Inr (InvalidMsgData, [1])"
    by (rule w) (simp add: example_env_def)
  show ?thesis
    using l r w2 wm l' w'
      encode_write_failure_by_path
        [where cb = Message and m = half_writable and env = example_env and len = 2
           and buf = "[0, 0]" and es = InvalidMsgData and written = "[1]"
           and es' = InvalidMsgData and written' = "[1]"]
      encode_write_failure_by_path
        [where cb = Message and m = two_bytes and env = example_env and len = 2
           and buf = "[0, 0]" and all_bytes = "[1, 2]" and NDEBUG = True]
    by simp
qed


text \<open>
  C2, as stated, fails: encoding the message \<open>two_bytes\<close> makes one call to
  \<^verbatim>\<open>CommsBase\<close>, the write, and none to \<^verbatim>\<open>refresh\<close>.
\<close>

theorem encodeDataImpl_makes_no_refresh_call:
  "fst (encodeDataImpl example_env True Message two_bytes) = [Call_write (max_size example_env)]
   \<and> count_list (fst (encodeDataImpl example_env True Message two_bytes)) Call_refresh \<noteq> 1
   \<and> snd (encodeDataImpl example_env True Message two_bytes) = Inr [1, 2]"
  by (simp add: encodeDataImpl_def WriteIterator_category_def encodeDataWithOutputIter_def
      Message_def two_bytes_def low_byte_def Field_class_def Field_write_def
      Field_length_def low_byte_config_def example_env_def)

text \<open>
  C2, amended. For every message, encoding invokes \<^verbatim>\<open>refresh()\<close> zero times: on the
  path \<^verbatim>\<open>encodeDataImpl\<close> takes the only call is the write, and on the random-access
  path the calls are the length query and the write. The message is encoded as it is.
\<close>

theorem encode_never_refreshes:
  "fst (encodeDataImpl env NDEBUG cb m) = [Call_write (max_size env)]
   \<and> count_list (fst (encodeDataImpl env NDEBUG cb m)) Call_refresh = 0
   \<and> Call_refresh \<notin> set (fst (encodeDataIntenal tag env NDEBUG cb m))"
proof -
  have a: "fst (encodeDataImpl env NDEBUG cb m) = [Call_write (max_size env)]"
    by (simp add: encodeDataImpl_output_path encodeDataWithOutputIter_calls)
  have b: "Call_refresh \<notin> set (fst (encodeDataIntenal tag env NDEBUG cb m))"
  proof (cases tag)
    case random_access_iterator_tag
    then show ?thesis
      using encodeDataRandomAccess_try_calls [of env NDEBUG cb m]
      by (auto simp: encodeDataRandomAccess_calls)
  next
    case output_iterator_tag
    then show ?thesis
      by (simp add: encodeDataWithOutputIter_calls)
  qed
  show ?thesis
    using b by (simp add: a)
qed

lemma encodeDataRandomAccess_try_length_throws:
  "comms_length cb m = Inl e \<Longrightarrow>
   snd (encodeDataRandomAccess_try env NDEBUG cb m) = Inl (Throws e)"
  by (simp add: encodeDataRandomAccess_try_def)

lemma encodeDataRandomAccess_try_resize_throws:
  "comms_length cb m = Inr len \<Longrightarrow> resize env len [] = Inl e \<Longrightarrow>
   snd (encodeDataRandomAccess_try env NDEBUG cb m) = Inl (Throws e)"
  by (simp add: encodeDataRandomAccess_try_def)

lemma encodeDataRandomAccess_try_write_throws:
  "comms_length cb m = Inr len \<Longrightarrow> resize env len [] = Inr buf \<Longrightarrow>
   comms_write cb m (length buf) = Inl e \<Longrightarrow>
   snd (encodeDataRandomAccess_try env NDEBUG cb m) = Inl (Throws e)"
  by (simp add: encodeDataRandomAccess_try_def)

lemma encodeDataRandomAccess_never_throws:
  "snd (encodeDataRandomAccess env NDEBUG cb m) \<noteq> Inl (Throws e)"
  by (simp add: encodeDataRandomAccess_catch split: sum.splits abnormal.splits)

lemma encodeDataRandomAccess_caught:
  "snd (encodeDataRandomAccess_try env NDEBUG cb m) = Inl (Throws e) \<Longrightarrow>
   snd (encodeDataRandomAccess env NDEBUG cb m) = Inr []"
  by (simp add: encodeDataRandomAccess_catch)

text \<open>
  C10. \<^verbatim>\<open>encodeDataRandomAccess\<close> never lets an exception escape. Whenever a statement
  of its \<^verbatim>\<open>try\<close> block throws, the result is the empty sequence; this is so when the
  length query throws, when resizing the buffer throws and when the write throws.
\<close>

theorem encodeDataRandomAccess_catches_every_exception:
  "snd (encodeDataRandomAccess env NDEBUG cb m) \<noteq> Inl (Throws e)
   \<and> (snd (encodeDataRandomAccess_try env NDEBUG cb m) = Inl (Throws e0)
        \<longrightarrow> snd (encodeDataRandomAccess env NDEBUG cb m) = Inr [])
   \<and> (comms_length cb m = Inl e1
        \<longrightarrow> snd (encodeDataRandomAccess env NDEBUG cb m) = Inr [])
   \<and> (comms_length cb m = Inr len \<and> resize env len [] = Inl e2
        \<longrightarrow> snd (encodeDataRandomAccess env NDEBUG cb m) = Inr [])
   \<and> (comms_length cb m = Inr len \<and> resize env len [] = Inr buf
        \<and> comms_write cb m (length buf) = Inl e3
        \<longrightarrow> snd (encodeDataRandomAccess env NDEBUG cb m) = Inr [])"
proof -
  have a: "snd (encodeDataRandomAccess env NDEBUG cb m) = Inr []"
    if "comms_length cb m = Inl e1"
    using encodeDataRandomAccess_try_length_throws [OF that, of env NDEBUG]
    by (rule encodeDataRandomAccess_caught)
  have b: "snd (encodeDataRandomAccess env NDEBUG cb m) = Inr []"
    if "comms_length cb m = Inr len" "resize env len [] = Inl e2"
    using encodeDataRandomAccess_try_resize_throws [OF that, of NDEBUG]
    by (rule encodeDataRandomAccess_caught)
  have c: "snd (encodeDataRandomAccess env NDEBUG cb m) = Inr []"
    if "comms_length cb m = Inr len" "resize env len [] = Inr buf"
      "comms_write cb m (length buf) = Inl e3"
    using encodeDataRandomAccess_try_write_throws [OF that, of NDEBUG]
    by (rule encodeDataRandomAccess_caught)
  show ?thesis
    using a b c encodeDataRandomAccess_never_throws [of env NDEBUG cb m e]
      encodeDataRandomAccess_caught [of env NDEBUG cb m e0]
    by blast
qed

theorem encodeDataRandomAccess_catches_every_exception_witness:
  "comms_length length_throws two_bytes = Inl (other_exception 1)
   \<and> snd (encodeDataRandomAccess example_env True length_throws two_bytes) = Inr []
   \<and> comms_length Message two_bytes = Inr 2
   \<and> resize exhausted_env 2 [] = Inl bad_alloc
   \<and> snd (encodeDataRandomAccess exhausted_env True Message two_bytes) = Inr []
   \<and> comms_length write_throws two_bytes = Inr 2
   \<and> resize example_env 2 [] = Inr [0, 0]
   \<and> comms_write write_throws two_bytes (length [0, 0 :: byte]) = Inl (other_exception 2)
   \<and> snd (encodeDataRandomAccess_try example_env True write_throws two_bytes)
       = Inl (Throws (other_exception 2))
   \<and> snd (encodeDataRandomAccess example_env True write_throws two_bytes) = Inr []"
proof -
  have l1: "comms_length length_throws two_bytes = Inl (other_exception 1)"
    by (simp add: length_throws_def)
  have l2: "comms_length Message two_bytes = Inr 2"
    by (simp add: Message_def two_bytes_def low_byte_def Field_class_def
        Field_length_def low_byte_config_def)
  have r2: "resize exhausted_env 2 [] = Inl bad_alloc"
    by (simp add: resize_def exhausted_env_def)
  have l3: "comms_length write_throws two_bytes = Inr 2"
    by (simp add: write_throws_def Message_def two_bytes_def low_byte_def Field_class_def
        Field_length_def low_byte_config_def)
  have r3: "resize example_env 2 [] = Inr [0, 0]"
    by (simp add: resize_def example_env_def numeral_2_eq_2)
  have w3: "comms_write write_throws two_bytes (length [0, 0 :: byte]) = Inl (other_exception 2)"
    by (simp add: write_throws_def)
  have t3: "snd (encodeDataRandomAccess_try example_env True write_throws two_bytes)
       = Inl (Throws (other_exception 2))"
    using l3 r3 w3 by (simp add: encodeDataRandomAccess_try_def)
  show ?thesis
    using l1 l2 r2 l3 r3 w3 t3
      encodeDataRandomAccess_catches_every_exception
        [where cb = length_throws and m = two_bytes and env = example_env and NDEBUG = True
           and ?e1.0 = "other_exception 1"]
      encodeDataRandomAccess_catches_every_exception
        [where cb = Message and m = two_bytes and env = exhausted_env and NDEBUG = True
           and len = 2 and ?e2.0 = bad_alloc]
      encodeDataRandomAccess_catches_every_exception
        [where cb = write_throws and m = two_bytes and env = example_env and NDEBUG = True
           and len = 2 and buf = "[0, 0]" and ?e3.0 = "other_exception 2"
           and ?e0.0 = "other_exception 2"]
    by simp
qed

end
